theory Spec2Isabelle
  imports Main "HOL-Library.Sublist"
begin

section \<open>Slide step controller and its animations (step\_ctrl.js)\<close>

text \<open>
  The JavaScript objects of \<^verbatim>\<open>step_ctrl.js\<close> are modelled by explicit state passing.
  An \<^verbatim>\<open>Animation\<close> object carries its own mutable flags; everything outside
  the two objects of the file (the page, jQuery, Snap, the console, the host's page
  navigation, the overridable hooks) is the \<open>world\<close>: the calls made on it are
  recorded, in order, in a trace, and the one part of the page whose value the code
  reads back, the inner HTML of a selection, is kept as a map.

  Conventions of the model:
  \<^item> selectors are taken to match an element and the external libraries to be loaded, so
    that a call into them returns; the JavaScript exceptions the file's own expressions can
    raise (a property read on \<^verbatim>\<open>undefined\<close>, the free identifier
    \<^verbatim>\<open>easing\<close> in the fade-out branch of \<^verbatim>\<open>play\<close>) are outcomes of the model;
  \<^item> the overridable hooks are recorded as events and do not touch the objects;
  \<^item> an animation object is referenced from one place (one step, or one composite
    animation), so a composite owns its children.
\<close>

subsection \<open>Outcomes and the world\<close>

datatype exn = TypeError | ReferenceError

text \<open>A call either returns or throws; in both cases the mutations made so far remain.\<close>

datatype 'a outcome = Done 'a | Thrown exn 'a

fun state_of :: "'a outcome \<Rightarrow> 'a" where
  "state_of (Done s) = s"
| "state_of (Thrown e s) = s"

fun completed :: "'a outcome \<Rightarrow> bool" where
  "completed (Done s) = True"
| "completed (Thrown e s) = False"

text \<open>
  An event is one call the code makes on something outside its two objects, with the
  arguments the code passes: a hook of an animation (named by the target of the
  animation), a jQuery call on a selection, a Snap call on the element of a selector
  (\<open>Snap_stop_inAnim\<close> is the loop of \<^verbatim>\<open>finish\<close> that completes and stops
  every transition \<^verbatim>\<open>inAnim()\<close> lists), the re-highlighting of code blocks, a
  console entry, or a page navigation of the host.
\<close>

datatype css_value = CssStr string | CssNum int

datatype event =
    BeforePlay string
  | AfterPlay string
  | PlayCustom string
  | PrepareCustom string
  | FinishCustom string
  | JQ_css string string css_value
  | JQ_hide string
  | JQ_fadeIn string int string
  | JQ_fadeOut string int
  | JQ_animate string "(string \<times> int) list" int string
  | JQ_finish string
  | JQ_html string string
  | JQ_removeClass string string
  | PrettyPrint
  | Snap_attr string "(string \<times> string) list"
  | Snap_animate string "(string \<times> string) list" int
  | Snap_stop_inAnim string
  | Console_error string
  | Console_log_object
  | NextPage
  | PreviousPage

record box =
  pos_top :: int
  pos_left :: int
  el_height :: int
  el_width :: int

text \<open>
  \<open>html w sel\<close> is what \<^verbatim>\<open>$(sel).html()\<close> reads. A text written with
  \<^verbatim>\<open>$(sel).html(t)\<close> is not read back as it was written: the browser parses it
  into nodes and a later read serialises these nodes, so \<^verbatim>\<open>a&b\<close> is read back as
  \<^verbatim>\<open>a&amp;b\<close>. \<open>reserialise w sel t\<close> is what the selection reads after \<open>t\<close>
  was written to it. \<open>class_removed\<close> and \<open>highlighted\<close> are what the selections read
  after \<^verbatim>\<open>removeClass\<close> has taken a class off the elements of a selection and
  after \<^verbatim>\<open>prettyPrint()\<close> has decorated the code blocks of the page. These three
  belong to the browser and the highlighting library and are parameters of the world.
  \<open>layout\<close> and \<open>viewport\<close> are
  the browser's layout readings (\<^verbatim>\<open>position()\<close>, \<^verbatim>\<open>height()\<close>,
  \<^verbatim>\<open>width()\<close> of a selection and of the window) after a given history of calls;
  \<open>easing_defined\<close> says whether the page defines a global named \<^verbatim>\<open>easing\<close>.
\<close>

record world =
  html :: "string \<Rightarrow> string"
  reserialise :: "string \<Rightarrow> string \<Rightarrow> string"
  class_removed :: "string \<Rightarrow> string \<Rightarrow> (string \<Rightarrow> string) \<Rightarrow> (string \<Rightarrow> string)"
  highlighted :: "(string \<Rightarrow> string) \<Rightarrow> (string \<Rightarrow> string)"
  layout :: "event list \<Rightarrow> string \<Rightarrow> box"
  viewport :: "event list \<Rightarrow> int \<times> int"
  easing_defined :: bool
  trace :: "event list"

definition emit :: "event \<Rightarrow> world \<Rightarrow> world" where
  "emit e w = w\<lparr>trace := trace w @ [e]\<rparr>"

text \<open>\<^verbatim>\<open>$(sel).html(t)\<close>: the selection then reads the text as the page re-serialises it.\<close>

definition set_html :: "string \<Rightarrow> string \<Rightarrow> world \<Rightarrow> world" where
  "set_html sel t w =
     w\<lparr>html := (html w)(sel := reserialise w sel t), trace := trace w @ [JQ_html sel t]\<rparr>"

text \<open>\<^verbatim>\<open>$(sel).removeClass(cls)\<close> and \<^verbatim>\<open>prettyPrint()\<close>.\<close>

definition removeClass :: "string \<Rightarrow> string \<Rightarrow> world \<Rightarrow> world" where
  "removeClass sel cls w =
     w\<lparr>html := class_removed w sel cls (html w), trace := trace w @ [JQ_removeClass sel cls]\<rparr>"

definition prettyPrint :: "world \<Rightarrow> world" where
  "prettyPrint w = w\<lparr>html := highlighted w (html w), trace := trace w @ [PrettyPrint]\<rparr>"

subsection \<open>Animation: the object\<close>

text \<open>
  The properties the methods read: the four constructor arguments, the recognised
  options (\<^verbatim>\<open>from\<close>, \<^verbatim>\<open>fromX\<close>, \<^verbatim>\<open>fromY\<close>, \<^verbatim>\<open>toX\<close>, \<^verbatim>\<open>toY\<close>,
  \<^verbatim>\<open>text\<close>, \<^verbatim>\<open>late_prepare\<close>, \<^verbatim>\<open>no_reverse\<close>, \<^verbatim>\<open>animations\<close>), the two
  flags and \<^verbatim>\<open>__old_text\<close>, which is \<^verbatim>\<open>undefined\<close> (\<open>None\<close>) until it is
  first assigned. Coordinates are kept in their textual form, as the code only
  concatenates them into a transform string.
\<close>

record anim_fields =
  atype :: string
  target :: string
  duration :: int
  easing :: string
  afrom :: string
  fromX :: string
  fromY :: string
  toX :: string
  toY :: string
  atext :: string
  late_prepare :: bool
  no_reverse :: bool
  ready :: bool
  played :: bool
  old_text :: "string option"

datatype animation = Animation (attrs: anim_fields) (animations: "animation list")

definition startsWith :: "string \<Rightarrow> string \<Rightarrow> bool" where
  "startsWith s p = (take (length p) s = p)"

subsection \<open>Animation.moveOutside\<close>

definition moveOutside :: "string \<Rightarrow> string \<Rightarrow> world \<Rightarrow> world" where
  "moveOutside tgt direction w =
     (let b = layout w (trace w) tgt;
          win_h = fst (viewport w (trace w));
          win_w = snd (viewport w (trace w))
      in if direction = ''up'' then
           emit (JQ_css tgt ''top'' (CssNum (- pos_top b - el_height b))) w
         else if direction = ''down'' then
           emit (JQ_css tgt ''top'' (CssNum ((win_h - pos_top b) + el_height b))) w
         else if direction = ''left'' then
           emit (JQ_css tgt ''left'' (CssNum (- pos_left b - el_width b))) w
         else if direction = ''right'' then
           emit (JQ_css tgt ''left'' (CssNum ((win_w - pos_left b) + el_width b))) w
         else w)"

subsection \<open>Animation.prototype.finish\<close>

fun finish :: "animation \<Rightarrow> world \<Rightarrow> world"
  and finish_all :: "animation list \<Rightarrow> world \<Rightarrow> world" where
  "finish (Animation f kids) w =
     (if startsWith (atype f) ''svg'' then emit (Snap_stop_inAnim (target f)) w
      else if atype f = ''set'' then finish_all kids w
      else if atype f = ''custom'' then emit (FinishCustom (target f)) w
      else emit (JQ_finish (target f)) w)"
| "finish_all [] w = w"
| "finish_all (k # ks) w = finish_all ks (finish k w)"

subsection \<open>Animation.prototype.prepare\<close>

text \<open>
  \<open>prepare\<close> is the method: its two guards, then \<open>prepare_body\<close>, the rest of the
  method (\<^verbatim>\<open>finish()\<close>, the precondition of the kind, \<^verbatim>\<open>ready = true\<close>).
  \<open>prepare_all\<close> is the loop of the composite kind.
\<close>

fun prepare :: "animation \<Rightarrow> world \<Rightarrow> animation \<times> world"
  and prepare_body :: "animation \<Rightarrow> world \<Rightarrow> animation \<times> world"
  and prepare_all :: "animation list \<Rightarrow> world \<Rightarrow> animation list \<times> world" where
  "prepare (Animation f kids) w =
     (if late_prepare f \<and> \<not> ready f then (Animation f kids, w)
      else if no_reverse f \<and> ready f \<and> played f then (Animation f kids, w)
      else prepare_body (Animation f kids) w)"
| "prepare_body (Animation f kids) w =
     (let w1 = finish (Animation f kids) w in
      if atype f = ''fadeIn'' then
        (Animation (f\<lparr>ready := True\<rparr>) kids,
         emit (JQ_css (target f) ''visibility'' (CssStr ''hidden'')) w1)
      else if atype f = ''fadeOut'' then
        (Animation (f\<lparr>ready := True\<rparr>) kids,
         emit (JQ_css (target f) ''visibility'' (CssStr ''visible'')) w1)
      else if atype f = ''moveIn'' then
        (Animation (f\<lparr>ready := True\<rparr>) kids,
         moveOutside (target f) (afrom f)
           (emit (JQ_css (target f) ''position'' (CssStr ''relative'')) w1))
      else if atype f = ''svg.fadeIn'' then
        (Animation (f\<lparr>ready := True\<rparr>) kids,
         emit (Snap_attr (target f) [(''visibility'', ''hidden'')]) w1)
      else if atype f = ''svg.move'' then
        (Animation (f\<lparr>ready := True\<rparr>) kids,
         emit (Snap_attr (target f)
                 [(''transform'', ''translate('' @ fromX f @ '', '' @ fromY f @ '')'')]) w1)
      else if atype f = ''set'' then
        (case prepare_all kids w1 of
           (kids', w2) \<Rightarrow> (Animation (f\<lparr>ready := True\<rparr>) kids', w2))
      else if atype f = ''changeText'' then
        (case old_text f of
           None \<Rightarrow>
             (Animation (f\<lparr>old_text := Some (html w1 (target f)), ready := True\<rparr>) kids, w1)
         | Some t \<Rightarrow>
             (Animation (f\<lparr>ready := True\<rparr>) kids, set_html (target f) t w1))
      else if atype f = ''custom'' then
        (Animation (f\<lparr>ready := True\<rparr>) kids, emit (PrepareCustom (target f)) w1)
      else (Animation (f\<lparr>ready := True\<rparr>) kids, w1))"
| "prepare_all [] w = ([], w)"
| "prepare_all (k # ks) w =
     (case prepare k w of
        (k', w1) \<Rightarrow> (case prepare_all ks w1 of (ks', w2) \<Rightarrow> (k' # ks', w2)))"

subsection \<open>Animation.prototype.play\<close>

text \<open>
  \<open>play\<close> runs its children after its own prepare pass, so its recursion is not
  structural: it terminates because \<open>prepare\<close> keeps the shape of the tree.
\<close>

text \<open>The number of animation objects in a tree.\<close>

fun nodes :: "animation \<Rightarrow> nat"
  and nodes_list :: "animation list \<Rightarrow> nat" where
  "nodes (Animation f kids) = Suc (nodes_list kids)"
| "nodes_list [] = 0"
| "nodes_list (k # ks) = nodes k + nodes_list ks"

lemma nodes_prepare:
  "nodes (fst (prepare a w)) = nodes a"
  "nodes (fst (prepare_body a w)) = nodes a"
  "nodes_list (fst (prepare_all ks w)) = nodes_list ks"
  by (induction a w and a w and ks w rule: prepare_prepare_body_prepare_all.induct)
     (auto split: prod.splits option.splits simp: Let_def)

lemma nodes_pos: "0 < nodes a"
  by (cases a) simp

text \<open>The end of \<^verbatim>\<open>play\<close>: \<^verbatim>\<open>this.played = true; this.afterPlay()\<close>.\<close>

definition after_play :: "animation \<Rightarrow> world \<Rightarrow> (animation \<times> world) outcome" where
  "after_play a w =
     Done (Animation ((attrs a)\<lparr>played := True\<rparr>) (animations a),
           emit (AfterPlay (target (attrs a))) w)"

text \<open>
  In the fade-out branch the third argument is the free identifier \<^verbatim>\<open>easing\<close>
  (the source has \<^verbatim>\<open>this,easing\<close>): evaluating it throws a ReferenceError unless
  the page defines such a global. \<open>play_all\<close> is the loop of the composite kind; an
  exception of a child leaves the loop.
\<close>

function play :: "animation \<Rightarrow> world \<Rightarrow> (animation \<times> world) outcome"
  and play_all :: "animation list \<Rightarrow> world \<Rightarrow> (animation list \<times> world) outcome" where
  "play (Animation f kids) w =
     (let w0 = emit (BeforePlay (target f)) w;
          armed = (if late_prepare f
                   then prepare (Animation (f\<lparr>ready := True, played := False\<rparr>) kids) w0
                   else (Animation f kids, w0));
          a1 = fst armed;
          w1 = snd armed;
          f1 = attrs a1;
          tgt = target f1
      in if atype f1 = ''fadeIn'' then
           after_play a1
             (emit (JQ_fadeIn tgt (duration f1) (easing f1))
               (emit (JQ_hide tgt)
                 (emit (JQ_css tgt ''visibility'' (CssStr ''visible'')) w1)))
         else if atype f1 = ''fadeOut'' then
           (if easing_defined w1
            then after_play a1 (emit (JQ_fadeOut tgt (duration f1)) w1)
            else Thrown ReferenceError (a1, w1))
         else if atype f1 = ''moveIn'' then
           after_play a1
             (emit (JQ_animate tgt [(''top'', 0), (''left'', 0)] (duration f1) (easing f1)) w1)
         else if atype f1 = ''svg.fadeIn'' then
           after_play a1
             (emit (Snap_animate tgt [(''opacity'', ''1'')] (duration f1))
               (emit (Snap_attr tgt [(''visibility'', ''visible''), (''opacity'', ''0'')]) w1))
         else if atype f1 = ''svg.move'' then
           after_play a1
             (emit (Snap_animate tgt
                      [(''transform'', ''translate('' @ toX f1 @ '', '' @ toY f1 @ '')'')]
                      (duration f1)) w1)
         else if atype f1 = ''set'' then
           (case play_all (animations a1) w1 of
              Done (kids2, w2) \<Rightarrow> after_play (Animation f1 kids2) w2
            | Thrown e (kids2, w2) \<Rightarrow> Thrown e (Animation f1 kids2, w2))
         else if atype f1 = ''changeText'' then
           after_play (Animation (f1\<lparr>old_text := Some (html w1 tgt)\<rparr>) (animations a1))
             (prettyPrint
               (removeClass ''.prettyprinted'' ''prettyprinted''
                 (set_html tgt (atext f1) w1)))
         else if atype f1 = ''custom'' then
           after_play a1 (emit (PlayCustom tgt) w1)
         else
           after_play a1
             (emit Console_log_object (emit (Console_error ''Unsupported animation: '') w1)))"
| "play_all [] w = Done ([], w)"
| "play_all (k # ks) w =
     (case play k w of
        Thrown e (k', w1) \<Rightarrow> Thrown e (k' # ks, w1)
      | Done (k', w1) \<Rightarrow>
          (case play_all ks w1 of
             Done (ks', w2) \<Rightarrow> Done (k' # ks', w2)
           | Thrown e (ks', w2) \<Rightarrow> Thrown e (k' # ks', w2)))"
  by pat_completeness auto
termination
proof (relation "measure (\<lambda>x. case x of Inl (a, w) \<Rightarrow> 2 * nodes a
                                        | Inr (ks, w) \<Rightarrow> 2 * nodes_list ks + 1)",
       goal_cases)
  case 1
  show ?case by simp
next
  case (2 f kids w w0 armed a1 w1 f1 tgt)
  have "nodes a1 = Suc (nodes_list kids)"
    using 2 by (cases "late_prepare f") (simp_all add: nodes_prepare del: prepare.simps)
  then have "nodes_list (animations a1) = nodes_list kids"
    by (cases a1) simp
  then show ?case by simp
next
  case (3 k ks w)
  show ?case by simp
next
  case (4 k ks w x2 k' w1)
  show ?case using nodes_pos[of k] by simp
qed

subsection \<open>The Animation constructor\<close>

text \<open>
  The constructor copies every key of the options object onto the instance, so the
  instance is an open set of properties: here a map from property names to values.
  The options object is the list of its own enumerable properties (a JavaScript object
  holds a key once). The closures the constructor creates are named by \<open>JFun\<close>.
\<close>

datatype jsval = JUndefined | JBool bool | JNum int | JStr string | JFun string

fun assign_options :: "(string \<times> jsval) list \<Rightarrow> (string \<rightharpoonup> jsval) \<Rightarrow> (string \<rightharpoonup> jsval)" where
  "assign_options [] this = this"
| "assign_options ((key, v) # rest) this = assign_options rest (this(key \<mapsto> v))"

definition Animation_new ::
  "jsval \<Rightarrow> jsval \<Rightarrow> jsval \<Rightarrow> jsval \<Rightarrow> (string \<times> jsval) list \<Rightarrow> (string \<rightharpoonup> jsval)" where
  "Animation_new type_arg target_arg duration_arg easing_arg options =
     (let duration' = (if duration_arg = JUndefined then JNum 500 else duration_arg);
          easing' = (if easing_arg = JUndefined then JStr ''swing'' else easing_arg);
          this1 = [''type'' \<mapsto> type_arg, ''target'' \<mapsto> target_arg,
                   ''duration'' \<mapsto> duration', ''easing'' \<mapsto> easing'];
          this2 = assign_options options this1;
          this3 = this2(''ready'' \<mapsto> JBool False, ''played'' \<mapsto> JBool False)
      in this3(''playCustomAnimation'' \<mapsto> JFun ''playCustomAnimation'',
               ''prepareCustomAnimation'' \<mapsto> JFun ''prepareCustomAnimation'',
               ''finishCustomAnimation'' \<mapsto> JFun ''finishCustomAnimation'',
               ''moveOutside'' \<mapsto> JFun ''moveOutside''))"

subsection \<open>StepCtrl\<close>

text \<open>
  A step is an object with a \<^verbatim>\<open>type\<close> and, for the kind \<^verbatim>\<open>anim\<close>, an
  \<^verbatim>\<open>animation\<close>; the property is \<^verbatim>\<open>undefined\<close> (\<open>None\<close>) when the step
  has none.
\<close>

record step =
  stype :: string
  animation :: "animation option"

record ctrl =
  steps :: "step list"
  currentStep :: int

text \<open>The controller as the file declares it.\<close>

definition StepCtrl :: ctrl where
  "StepCtrl =
     \<lparr>steps = [\<lparr>stype = ''prevPage'', animation = None\<rparr>,
               \<lparr>stype = ''nextPage'', animation = None\<rparr>],
      currentStep = 0\<rparr>"

text \<open>
  \<^verbatim>\<open>this.steps[this.currentStep]\<close>: an index outside the array reads
  \<^verbatim>\<open>undefined\<close>, and the read of \<^verbatim>\<open>.type\<close> on it then throws a TypeError.
\<close>

definition js_index :: "'a list \<Rightarrow> int \<Rightarrow> 'a option" where
  "js_index xs i = (if 0 \<le> i \<and> i < int (length xs) then Some (xs ! nat i) else None)"

text \<open>The first switch of \<^verbatim>\<open>nextStep\<close> (``pre execution'').\<close>

definition pre_execute :: "step \<Rightarrow> world \<Rightarrow> world outcome" where
  "pre_execute s w =
     (if stype s = ''anim'' then
        (case animation s of
           None \<Rightarrow> Thrown TypeError w
         | Some a \<Rightarrow> Done (finish a w))
      else Done w)"

text \<open>The second switch of \<^verbatim>\<open>nextStep\<close> (``real execution''), on the step it is given.\<close>

definition execute :: "step \<Rightarrow> world \<Rightarrow> (step \<times> world) outcome" where
  "execute s w =
     (if stype s = ''prevPage'' then Done (s, w)
      else if stype s = ''nextPage'' then Done (s, emit NextPage w)
      else if stype s = ''anim'' then
        (case animation s of
           None \<Rightarrow> Thrown TypeError (s, w)
         | Some a \<Rightarrow>
             (case play a w of
                Done (a', w') \<Rightarrow> Done (s\<lparr>animation := Some a'\<rparr>, w')
              | Thrown e (a', w') \<Rightarrow> Thrown e (s\<lparr>animation := Some a'\<rparr>, w')))
      else Done (s, emit Console_log_object
                      (emit (Console_error ''Unsupported step operation: '') w)))"

text \<open>The switch of \<^verbatim>\<open>previousStep\<close>: the reverse execution of a step.\<close>

definition reverse_execute :: "step \<Rightarrow> world \<Rightarrow> (step \<times> world) outcome" where
  "reverse_execute s w =
     (if stype s = ''prevPage'' then Done (s, emit PreviousPage w)
      else if stype s = ''nextPage'' then Done (s, w)
      else if stype s = ''anim'' then
        (case animation s of
           None \<Rightarrow> Thrown TypeError (s, w)
         | Some a \<Rightarrow> (case prepare a w of (a', w') \<Rightarrow> Done (s\<lparr>animation := Some a'\<rparr>, w')))
      else Done (s, emit Console_log_object
                      (emit (Console_error ''Unsupported step operation: '') w)))"

text \<open>
  The step object is mutated in place; in the model its new state is written back at
  the cursor.
\<close>

fun put_step :: "ctrl \<Rightarrow> (step \<times> world) outcome \<Rightarrow> (ctrl \<times> world) outcome" where
  "put_step c (Done (s, w)) = Done (c\<lparr>steps := (steps c)[nat (currentStep c) := s]\<rparr>, w)"
| "put_step c (Thrown e (s, w)) =
     Thrown e (c\<lparr>steps := (steps c)[nat (currentStep c) := s]\<rparr>, w)"

definition nextStep :: "ctrl \<Rightarrow> world \<Rightarrow> (ctrl \<times> world) outcome" where
  "nextStep c w =
     (case js_index (steps c) (currentStep c) of
        None \<Rightarrow> Thrown TypeError (c, w)
      | Some s \<Rightarrow>
          (case pre_execute s w of
             Thrown e w1 \<Rightarrow> Thrown e (c, w1)
           | Done w1 \<Rightarrow>
               (let n = int (length (steps c));
                    i = currentStep c + 1;
                    c1 = c\<lparr>currentStep := (if i \<ge> n then n - 1 else i)\<rparr>
                in case js_index (steps c1) (currentStep c1) of
                     None \<Rightarrow> Thrown TypeError (c1, w1)
                   | Some s1 \<Rightarrow> put_step c1 (execute s1 w1))))"

definition previousStep :: "ctrl \<Rightarrow> world \<Rightarrow> (ctrl \<times> world) outcome" where
  "previousStep c w =
     (case js_index (steps c) (currentStep c) of
        None \<Rightarrow> Thrown TypeError (c, w)
      | Some s \<Rightarrow>
          (case put_step c (reverse_execute s w) of
             Thrown e cw \<Rightarrow> Thrown e cw
           | Done (c1, w1) \<Rightarrow>
               (let i = currentStep c1 - 1
                in Done (c1\<lparr>currentStep := (if i < 0 then 0 else i)\<rparr>, w1))))"

text \<open>
  A navigation session: the host calls \<^verbatim>\<open>nextStep\<close> and \<^verbatim>\<open>previousStep\<close> from
  its event handlers, one call after the other; a call that throws ends that handler
  only, and the next call finds the objects as the throwing call left them.
\<close>

datatype nav = Next | Previous

fun navigate :: "nav \<Rightarrow> ctrl \<times> world \<Rightarrow> ctrl \<times> world" where
  "navigate Next (c, w) = state_of (nextStep c w)"
| "navigate Previous (c, w) = state_of (previousStep c w)"

fun run :: "nav list \<Rightarrow> ctrl \<times> world \<Rightarrow> ctrl \<times> world" where
  "run [] cw = cw"
| "run (n # ns) cw = run ns (navigate n cw)"

subsection \<open>Names used in the properties\<close>


text \<open>
  A page for the examples. Its re-serialisation is that of text with character
  references: parsing turns \<^verbatim>\<open>&amp;\<close> into \<^verbatim>\<open>&\<close>, serialising turns every
  \<^verbatim>\<open>&\<close> into \<^verbatim>\<open>&amp;\<close>.
\<close>

fun unescape_amp :: "string \<Rightarrow> string" where
  "unescape_amp [] = []"
| "unescape_amp (c # r) =
     (if c = CHR ''&'' \<and> take 4 r = ''amp;'' then CHR ''&'' # unescape_amp (drop 4 r)
      else c # unescape_amp r)"

definition escape_amp :: "string \<Rightarrow> string" where
  "escape_amp s = concat (map (\<lambda>c. if c = CHR ''&'' then ''&amp;'' else [c]) s)"

text \<open>
  On this page every selection reads \<^verbatim>\<open>old\<close>, there are no code blocks to
  highlight, no global \<^verbatim>\<open>easing\<close> and no call made yet. \<open>demo_fields\<close> are the
  fields of a fresh change-text animation on \<^verbatim>\<open>#b\<close>.
\<close>

definition demo_world :: world where
  "demo_world =
     \<lparr>html = (\<lambda>sel. ''old''),
      reserialise = (\<lambda>sel t. escape_amp (unescape_amp t)),
      class_removed = (\<lambda>sel cls page. page),
      highlighted = (\<lambda>page. page),
      layout = (\<lambda>es sel. \<lparr>pos_top = 0, pos_left = 0, el_height = 10, el_width = 10\<rparr>),
      viewport = (\<lambda>es. (600, 800)),
      easing_defined = False,
      trace = []\<rparr>"

definition demo_fields :: anim_fields where
  "demo_fields =
     \<lparr>atype = ''changeText'', target = ''#b'', duration = 500, easing = ''swing'',
      afrom = ''left'', fromX = ''0'', fromY = ''0'', toX = ''0'', toY = ''0'',
      atext = ''hi'', late_prepare = False, no_reverse = False,
      ready = False, played = False, old_text = None\<rparr>"

text \<open>The case labels of the switches of \<^verbatim>\<open>nextStep\<close> and \<^verbatim>\<open>previousStep\<close>.\<close>

definition step_kinds :: "string list" where
  "step_kinds = [''prevPage'', ''nextPage'', ''anim'']"

text \<open>
  The properties the constructor assigns after it has copied the options.
\<close>

definition overwritten_keys :: "string list" where
  "overwritten_keys = [''ready'', ''played'', ''playCustomAnimation'',
                       ''prepareCustomAnimation'', ''finishCustomAnimation'', ''moveOutside'']"

text \<open>The sequence \<^verbatim>\<open>prepare(); play(); prepare()\<close> on one animation.\<close>

definition round_trip :: "animation \<Rightarrow> world \<Rightarrow> animation \<times> world" where
  "round_trip a w =
     (case prepare a w of
        (a1, w1) \<Rightarrow> (case state_of (play a1 w1) of (a2, w2) \<Rightarrow> prepare a2 w2))"

text \<open>
  Two step lists for the examples: one with a step of an unknown kind, one with a
  fade-out animation on \<^verbatim>\<open>#a\<close>.
\<close>

definition demo_ctrl :: ctrl where
  "demo_ctrl =
     \<lparr>steps = [\<lparr>stype = ''prevPage'', animation = None\<rparr>,
               \<lparr>stype = ''video'', animation = None\<rparr>,
               \<lparr>stype = ''nextPage'', animation = None\<rparr>],
      currentStep = 0\<rparr>"

definition demo_deck :: ctrl where
  "demo_deck =
     \<lparr>steps = [\<lparr>stype = ''prevPage'', animation = None\<rparr>,
               \<lparr>stype = ''anim'',
                animation = Some (Animation (demo_fields\<lparr>atype := ''fadeOut'', target := ''#a''\<rparr>) [])\<rparr>,
               \<lparr>stype = ''nextPage'', animation = None\<rparr>],
      currentStep = 0\<rparr>"

text \<open>A step list whose animation step has no animation.\<close>

definition demo_broken :: ctrl where
  "demo_broken =
     \<lparr>steps = [\<lparr>stype = ''prevPage'', animation = None\<rparr>,
               \<lparr>stype = ''anim'', animation = None\<rparr>],
      currentStep = 1\<rparr>"

section \<open>Properties\<close>

subsection \<open>Auxiliary facts\<close>

lemma finish_html [simp]:
  "html (finish a w) = html w"
  "html (finish_all ks w) = html w"
  by (induction a w and ks w rule: finish_finish_all.induct) (simp_all add: emit_def)


lemma prepare_body_attrs:
  "atype (attrs (fst (prepare_body a w))) = atype (attrs a)"
  "target (attrs (fst (prepare_body a w))) = target (attrs a)"
  "atext (attrs (fst (prepare_body a w))) = atext (attrs a)"
  "late_prepare (attrs (fst (prepare_body a w))) = late_prepare (attrs a)"
  "no_reverse (attrs (fst (prepare_body a w))) = no_reverse (attrs a)"
  "played (attrs (fst (prepare_body a w))) = played (attrs a)"
  "ready (attrs (fst (prepare_body a w)))"
  by (cases a; simp add: Let_def split: prod.splits option.splits)+

lemma prepare_changeText:
  assumes "atype f = ''changeText''"
  shows "prepare_body (Animation f kids) w =
          (case old_text f of
             None \<Rightarrow> (Animation (f\<lparr>old_text := Some (html w (target f)), ready := True\<rparr>) kids,
                      emit (JQ_finish (target f)) w)
           | Some t \<Rightarrow> (Animation (f\<lparr>ready := True\<rparr>) kids,
                       set_html (target f) t (emit (JQ_finish (target f)) w)))"
  using assms by (simp add: Let_def startsWith_def emit_def split: option.splits)

lemma play_changeText:
  assumes "atype f = ''changeText''" and "\<not> late_prepare f"
  shows "play (Animation f kids) w =
      Done (Animation (f\<lparr>old_text := Some (html w (target f)), played := True\<rparr>) kids,
           emit (AfterPlay (target f)) (prettyPrint
               (removeClass ''.prettyprinted'' ''prettyprinted''
                 (set_html (target f) (atext f) (emit (BeforePlay (target f)) w)))))"
  using assms by (simp add: Let_def after_play_def emit_def)

lemma prepare_guards:
  "prepare a w =
     (if late_prepare (attrs a) \<and> \<not> ready (attrs a) then (a, w)
      else if no_reverse (attrs a) \<and> ready (attrs a) \<and> played (attrs a) then (a, w)
      else prepare_body a w)"
  by (cases a) (simp del: prepare_body.simps)

lemma play_changeText_late:
  assumes "atype f = ''changeText''" and "late_prepare f"
  shows "play (Animation f kids) w =
      (case prepare_body (Animation (f\<lparr>ready := True, played := False\<rparr>) kids)
              (emit (BeforePlay (target f)) w) of
         (a1, w1) \<Rightarrow>
           Done (Animation ((attrs a1)\<lparr>old_text := Some (html w1 (target f)), played := True\<rparr>)
                   (animations a1),
                 emit (AfterPlay (target f)) (prettyPrint
                   (removeClass ''.prettyprinted'' ''prettyprinted''
                     (set_html (target f) (atext f) w1)))))"
  using assms
  by (simp add: Let_def after_play_def prepare_guards prepare_body_attrs case_prod_beta
           del: prepare.simps prepare_body.simps)

lemma play_flags:
  "late_prepare (attrs (fst (state_of (play a w)))) = late_prepare (attrs a)"
  "no_reverse (attrs (fst (state_of (play a w)))) = no_reverse (attrs a)"
  "late_prepare (attrs a) \<Longrightarrow> ready (attrs (fst (state_of (play a w))))"
  "late_prepare (attrs a) \<Longrightarrow> played (attrs (fst (state_of (play a w)))) = completed (play a w)"
  by (cases a;
      simp add: Let_def after_play_def prepare_guards prepare_body_attrs
           del: prepare.simps prepare_body.simps split: outcome.splits prod.splits)+

text \<open>Every method only appends to the trace.\<close>

lemma emit_prefix [simp]: "prefix (trace w) (trace (emit e w))"
  by (simp add: emit_def)

lemma prefix_emit: "prefix xs (trace w) \<Longrightarrow> prefix xs (trace (emit e w))"
  by (simp add: emit_def)

lemma prefix_set_html: "prefix xs (trace w) \<Longrightarrow> prefix xs (trace (set_html s t w))"
  by (simp add: set_html_def)

lemma prefix_removeClass:
  "prefix xs (trace w) \<Longrightarrow> prefix xs (trace (removeClass s c w))"
  by (simp add: removeClass_def)

lemma prefix_prettyPrint: "prefix xs (trace w) \<Longrightarrow> prefix xs (trace (prettyPrint w))"
  by (simp add: prettyPrint_def)

lemma prefix_moveOutside: "prefix xs (trace w) \<Longrightarrow> prefix xs (trace (moveOutside t d w))"
  by (simp add: moveOutside_def Let_def prefix_emit)

lemma prefix_finish:
  "prefix xs (trace w) \<Longrightarrow> prefix xs (trace (finish a w))"
  "prefix xs (trace w) \<Longrightarrow> prefix xs (trace (finish_all ks w))"
  by (induction a w and ks w rule: finish_finish_all.induct) (simp_all add: prefix_emit)

lemma prefix_prepare:
  "prefix xs (trace w) \<Longrightarrow> prefix xs (trace (snd (prepare a w)))"
  "prefix xs (trace w) \<Longrightarrow> prefix xs (trace (snd (prepare_body a w)))"
  "prefix xs (trace w) \<Longrightarrow> prefix xs (trace (snd (prepare_all ks w)))"
  by (induction a w and a w and ks w rule: prepare_prepare_body_prepare_all.induct)
     (auto simp: Let_def prefix_emit prefix_set_html prefix_moveOutside prefix_finish
           simp del: finish.simps split: prod.splits option.splits)

lemma arm_prefix:
  "prefix (trace w)
     (trace (snd (if late_prepare (attrs a)
                  then prepare (Animation ((attrs a)\<lparr>ready := True, played := False\<rparr>) (animations a))
                         (emit (BeforePlay (target (attrs a))) w)
                  else (a, emit (BeforePlay (target (attrs a))) w))))"
  by (simp add: prefix_prepare prefix_emit del: prepare.simps)

lemma play_prefix_armed:
  "prefix
     (trace (snd (if late_prepare (attrs a)
                  then prepare (Animation ((attrs a)\<lparr>ready := True, played := False\<rparr>) (animations a))
                         (emit (BeforePlay (target (attrs a))) w)
                  else (a, emit (BeforePlay (target (attrs a))) w))))
     (trace (snd (state_of (play a w))))"
  "prefix (trace w) (trace (snd (state_of (play_all ks w))))"
proof (induction a w and ks w rule: play_play_all.induct)
  case (1 f kids w)
  let ?w0 = "emit (BeforePlay (target f)) w"
  let ?armed = "if late_prepare f
                then prepare (Animation (f\<lparr>ready := True, played := False\<rparr>) kids) ?w0
                else (Animation f kids, ?w0)"
  let ?kids = "play_all (animations (fst ?armed)) (snd ?armed)"
  show ?case
  proof (cases "atype (attrs (fst ?armed)) = ''set''")
    case True
    have "prefix (trace (snd ?armed)) (trace (snd (state_of ?kids)))"
      using "1.IH"[OF refl refl refl refl refl refl] True by simp
    then show ?thesis
      using True
      by (cases "late_prepare f"; cases ?kids)
         (auto simp: Let_def after_play_def prefix_emit
               simp del: prepare.simps prepare_body.simps)
  next
    case False
    then show ?thesis
      by (cases "late_prepare f")
         (simp_all add: Let_def after_play_def prefix_emit prefix_set_html
               prefix_removeClass prefix_prettyPrint
               del: prepare.simps prepare_body.simps)
  qed
next
  case (2 w)
  show ?case by simp
next
  case (3 k ks w)
  have k: "prefix (trace w) (trace (snd (state_of (play k w))))"
    using arm_prefix[of w k] "3.IH"(1) by (rule prefix_order.trans)
  show ?case
  proof (cases "play k w")
    case (Thrown e s)
    then show ?thesis using k by (cases s) simp
  next
    case (Done s)
    obtain k' w1 where s: "s = (k', w1)" by (cases s)
    have "prefix (trace w1) (trace (snd (state_of (play_all ks w1))))"
      using "3.IH"(2)[OF Done s[symmetric]] .
    moreover have "prefix (trace w) (trace w1)"
      using k Done s by simp
    ultimately have "prefix (trace w) (trace (snd (state_of (play_all ks w1))))"
      by (rule prefix_order.trans[rotated])
    then show ?thesis
      using Done s by (auto split: outcome.splits prod.splits)
  qed
qed

text \<open>The cursor and the length of the step list.\<close>

lemma put_step_ctrl [simp]:
  "currentStep (fst (state_of (put_step c r))) = currentStep c"
  "length (steps (fst (state_of (put_step c r)))) = length (steps c)"
  by (cases r; cases "state_of r"; simp)+

lemma nextStep_cursor:
  assumes "0 \<le> currentStep c" and "currentStep c < int (length (steps c))"
  shows "0 \<le> currentStep (fst (state_of (nextStep c w)))
       \<and> currentStep (fst (state_of (nextStep c w))) < int (length (steps c))
       \<and> length (steps (fst (state_of (nextStep c w)))) = length (steps c)"
  using assms
  by (auto simp: nextStep_def js_index_def Let_def split: outcome.splits)

lemma previousStep_cursor:
  assumes "0 \<le> currentStep c" and "currentStep c < int (length (steps c))"
  shows "0 \<le> currentStep (fst (state_of (previousStep c w)))
       \<and> currentStep (fst (state_of (previousStep c w))) < int (length (steps c))
       \<and> length (steps (fst (state_of (previousStep c w)))) = length (steps c)"
proof -
  let ?r = "put_step c (reverse_execute (steps c ! nat (currentStep c)) w)"
  have "currentStep (fst (state_of ?r)) = currentStep c"
    and "length (steps (fst (state_of ?r))) = length (steps c)"
    by simp_all
  then show ?thesis
    using assms
    by (cases ?r) (auto simp: previousStep_def js_index_def Let_def split: prod.splits)
qed

lemma run_cursor:
  assumes "0 \<le> currentStep c" and "currentStep c < int (length (steps c))"
  shows "0 \<le> currentStep (fst (run ns (c, w)))
       \<and> currentStep (fst (run ns (c, w))) < int (length (steps c))
       \<and> length (steps (fst (run ns (c, w)))) = length (steps c)"
  using assms
proof (induction ns arbitrary: c w)
  case Nil
  then show ?case by simp
next
  case (Cons n ns)
  obtain c' w' where step: "navigate n (c, w) = (c', w')"
    by (cases "navigate n (c, w)")
  have "0 \<le> currentStep c' \<and> currentStep c' < int (length (steps c))
        \<and> length (steps c') = length (steps c)"
  proof (cases n)
    case Next
    then show ?thesis
      using step nextStep_cursor[OF Cons.prems, of w] by simp
  next
    case Previous
    then show ?thesis
      using step previousStep_cursor[OF Cons.prems, of w] by simp
  qed
  then show ?case
    using Cons.IH[of c' w'] step by simp
qed

lemma nextStep_phases:
  assumes "0 \<le> currentStep c" and "currentStep c < int (length (steps c))"
  shows "nextStep c w =
           (case pre_execute (steps c ! nat (currentStep c)) w of
              Thrown e w1 \<Rightarrow> Thrown e (c, w1)
            | Done w1 \<Rightarrow>
                put_step (c\<lparr>currentStep := min (currentStep c + 1) (int (length (steps c)) - 1)\<rparr>)
                  (execute (steps c ! nat (min (currentStep c + 1) (int (length (steps c)) - 1))) w1))"
proof -
  have "min (currentStep c + 1) (int (length (steps c)) - 1) =
          (if currentStep c + 1 \<ge> int (length (steps c)) then int (length (steps c)) - 1
           else currentStep c + 1)"
    by simp
  then show ?thesis
    using assms
    by (auto simp: nextStep_def js_index_def Let_def split: outcome.splits)
qed

lemma previousStep_phases:
  assumes "0 \<le> currentStep c" and "currentStep c < int (length (steps c))"
  shows "previousStep c w =
           (case put_step c (reverse_execute (steps c ! nat (currentStep c)) w) of
              Thrown e cw \<Rightarrow> Thrown e cw
            | Done (c1, w1) \<Rightarrow> Done (c1\<lparr>currentStep := max 0 (currentStep c - 1)\<rparr>, w1))"
proof -
  let ?r = "put_step c (reverse_execute (steps c ! nat (currentStep c)) w)"
  have cur: "currentStep (fst (state_of ?r)) = currentStep c"
    by simp
  show ?thesis
  proof (cases ?r)
    case (Thrown e cw)
    then show ?thesis
      using assms by (simp add: previousStep_def js_index_def)
  next
    case (Done cw)
    obtain c1 w1 where cw: "cw = (c1, w1)" by (cases cw)
    have "currentStep c1 = currentStep c"
      using cur Done cw by simp
    then show ?thesis
      using assms Done cw by (simp add: previousStep_def js_index_def Let_def max_def)
  qed
qed

lemma nextStep_at_last:
  assumes "steps c \<noteq> []" and "currentStep c = int (length (steps c)) - 1"
  shows "nextStep c w =
           (case pre_execute (steps c ! (length (steps c) - 1)) w of
              Thrown e w1 \<Rightarrow> Thrown e (c, w1)
            | Done w1 \<Rightarrow> put_step c (execute (steps c ! (length (steps c) - 1)) w1))"
proof -
  have range: "0 \<le> currentStep c" "currentStep c < int (length (steps c))"
    using assms by (cases "steps c"; simp)+
  have idx: "nat (currentStep c) = length (steps c) - 1"
    using assms by (cases "steps c"; simp)
  have m: "min (currentStep c + 1) (int (length (steps c)) - 1) = currentStep c"
    using assms by simp
  have same: "c\<lparr>currentStep := min (currentStep c + 1) (int (length (steps c)) - 1)\<rparr> = c"
    unfolding m by simp
  have idx': "nat (min (currentStep c + 1) (int (length (steps c)) - 1)) = length (steps c) - 1"
    unfolding m by (rule idx)
  show ?thesis
    using nextStep_phases[OF range, of w] unfolding same idx' idx .
qed

lemma previousStep_at_first:
  assumes "steps c \<noteq> []" and "currentStep c = 0"
  shows "previousStep c w = put_step c (reverse_execute (steps c ! 0) w)"
proof -
  have range: "0 \<le> currentStep c" "currentStep c < int (length (steps c))"
    using assms by (cases "steps c"; simp)+
  let ?r = "put_step c (reverse_execute (steps c ! 0) w)"
  have cur: "currentStep (fst (state_of ?r)) = 0"
    using assms by simp
  show ?thesis
  proof (cases ?r)
    case (Thrown e cw)
    then show ?thesis
      using previousStep_phases[OF range, of w] assms by simp
  next
    case (Done cw)
    obtain c1 w1 where cw: "cw = (c1, w1)" by (cases cw)
    have "currentStep c1 = 0" using cur Done cw by simp
    then have "c1\<lparr>currentStep := 0\<rparr> = c1" by (cases c1) simp
    then show ?thesis
      using previousStep_phases[OF range, of w] assms Done cw by simp
  qed
qed

lemma run_Next_at_last:
  assumes "steps c \<noteq> []" and "currentStep c = int (length (steps c)) - 1"
  shows "currentStep (fst (run (replicate n Next) (c, w))) = int (length (steps c)) - 1
       \<and> length (steps (fst (run (replicate n Next) (c, w)))) = length (steps c)"
  using assms
proof (induction n arbitrary: c w)
  case 0
  then show ?case by simp
next
  case (Suc n)
  obtain c' w' where step: "state_of (nextStep c w) = (c', w')"
    by (cases "state_of (nextStep c w)")
  have c': "c' = fst (state_of (nextStep c w))"
    using step by simp
  have "currentStep c' = currentStep c \<and> length (steps c') = length (steps c)"
    unfolding c' nextStep_at_last[OF Suc.prems, of w]
    by (cases "pre_execute (steps c ! (length (steps c) - 1)) w") simp_all
  then have "steps c' \<noteq> []" and "currentStep c' = int (length (steps c')) - 1"
    and len: "length (steps c') = length (steps c)"
    using Suc.prems by auto
  then show ?case
    using Suc.IH[of c' w'] step by simp
qed

lemma run_Previous_at_first:
  assumes "steps c \<noteq> []" and "currentStep c = 0"
  shows "currentStep (fst (run (replicate n Previous) (c, w))) = 0
       \<and> length (steps (fst (run (replicate n Previous) (c, w)))) = length (steps c)"
  using assms
proof (induction n arbitrary: c w)
  case 0
  then show ?case by simp
next
  case (Suc n)
  obtain c' w' where step: "state_of (previousStep c w) = (c', w')"
    by (cases "state_of (previousStep c w)")
  have c': "c' = fst (state_of (previousStep c w))"
    using step by simp
  have "currentStep c' = 0" and len: "length (steps c') = length (steps c)"
    unfolding c' previousStep_at_first[OF Suc.prems, of w]
    using Suc.prems by simp_all
  moreover have "steps c' \<noteq> []"
    using len Suc.prems by auto
  ultimately show ?case
    using Suc.IH[of c' w'] step by simp
qed

lemma execute_unsupported:
  assumes "stype s \<notin> set step_kinds"
  shows "execute s w =
           Done (s, emit Console_log_object (emit (Console_error ''Unsupported step operation: '') w))"
    and "reverse_execute s w =
           Done (s, emit Console_log_object (emit (Console_error ''Unsupported step operation: '') w))"
  using assms by (simp_all add: execute_def reverse_execute_def step_kinds_def)

lemma assign_options_other:
  "key \<notin> fst ` set opts \<Longrightarrow> assign_options opts this key = this key"
  by (induction opts arbitrary: this) auto

lemma assign_options_copied:
  "distinct (map fst opts) \<Longrightarrow> (key, v) \<in> set opts \<Longrightarrow> assign_options opts this key = Some v"
proof (induction opts arbitrary: this)
  case Nil
  then show ?case by simp
next
  case (Cons kv opts)
  obtain k' v' where kv: "kv = (k', v')" by (cases kv)
  show ?case
  proof (cases "(key, v) \<in> set opts")
    case True
    then show ?thesis using Cons kv by simp
  next
    case False
    then have "k' = key" "v' = v" using Cons.prems kv by auto
    moreover have "key \<notin> fst ` set opts"
      using Cons.prems kv \<open>k' = key\<close> by auto
    ultimately show ?thesis
      using kv by (simp add: assign_options_other)
  qed
qed

subsection \<open>The cursor stays in range\<close>

text \<open>
  C1. For every controller whose step list is not empty and whose \<^verbatim>\<open>currentStep\<close>
  lies in \<open>[0, steps.length - 1]\<close>, it lies there again after any sequence of
  \<^verbatim>\<open>nextStep\<close> and \<^verbatim>\<open>previousStep\<close> calls, in any order, whether the calls
  return or throw; the step list keeps its length.
\<close>

theorem currentStep_in_range:
  assumes "steps c \<noteq> []"
    and "0 \<le> currentStep c"
    and "currentStep c \<le> int (length (steps c)) - 1"
  shows "0 \<le> currentStep (fst (run ns (c, w)))
       \<and> currentStep (fst (run ns (c, w))) \<le> int (length (steps (fst (run ns (c, w))))) - 1
       \<and> length (steps (fst (run ns (c, w)))) = length (steps c)"
  using run_cursor[of c ns w] assms by simp

theorem currentStep_in_range_witness:
  "0 \<le> currentStep (fst (run [Next, Next, Next, Previous, Previous, Previous, Previous] (StepCtrl, demo_world)))
   \<and> currentStep (fst (run [Next, Next, Next, Previous, Previous, Previous, Previous] (StepCtrl, demo_world))) \<le> 1"
  using currentStep_in_range
    [of StepCtrl "[Next, Next, Next, Previous, Previous, Previous, Previous]" demo_world]
  by (simp add: StepCtrl_def)

subsection \<open>Calls at the two ends\<close>

text \<open>
  C2. With the cursor on the last index, after any number \<open>n\<close> of \<^verbatim>\<open>nextStep\<close>
  calls the cursor is still the last index, and one more call is again the pre-execution
  and the execution of that last step, with the cursor left where it is. With the cursor
  on 0, after any number \<open>n\<close> of \<^verbatim>\<open>previousStep\<close> calls the cursor is still 0,
  and one more call is again the reverse execution of the step at index 0.
\<close>

theorem boundary_repeat:
  assumes "steps c \<noteq> []"
  shows "(currentStep c = int (length (steps c)) - 1 \<longrightarrow>
            (let c' = fst (run (replicate n Next) (c, w));
                 w' = snd (run (replicate n Next) (c, w));
                 s = steps c' ! (length (steps c') - 1)
             in currentStep c' = int (length (steps c')) - 1
                \<and> length (steps c') = length (steps c)
                \<and> nextStep c' w' =
                    (case pre_execute s w' of
                       Thrown e w1 \<Rightarrow> Thrown e (c', w1)
                     | Done w1 \<Rightarrow> put_step c' (execute s w1))))
       \<and> (currentStep c = 0 \<longrightarrow>
            (let c' = fst (run (replicate n Previous) (c, w));
                 w' = snd (run (replicate n Previous) (c, w))
             in currentStep c' = 0
                \<and> length (steps c') = length (steps c)
                \<and> previousStep c' w' = put_step c' (reverse_execute (steps c' ! 0) w')))"
proof (intro conjI impI)
  assume last: "currentStep c = int (length (steps c)) - 1"
  let ?c = "fst (run (replicate n Next) (c, w))"
  have len: "length (steps ?c) = length (steps c)"
    using run_Next_at_last[OF assms last, of n w] by simp
  have cur: "currentStep ?c = int (length (steps ?c)) - 1"
    using run_Next_at_last[OF assms last, of n w] by simp
  have "steps ?c \<noteq> []"
    using assms len by auto
  from nextStep_at_last[OF this cur] cur len
  show "let c' = fst (run (replicate n Next) (c, w));
            w' = snd (run (replicate n Next) (c, w));
            s = steps c' ! (length (steps c') - 1)
        in currentStep c' = int (length (steps c')) - 1
           \<and> length (steps c') = length (steps c)
           \<and> nextStep c' w' =
               (case pre_execute s w' of
                  Thrown e w1 \<Rightarrow> Thrown e (c', w1)
                | Done w1 \<Rightarrow> put_step c' (execute s w1))"
    unfolding Let_def by blast
next
  assume first: "currentStep c = 0"
  let ?c = "fst (run (replicate n Previous) (c, w))"
  have len: "length (steps ?c) = length (steps c)"
    using run_Previous_at_first[OF assms first, of n w] by simp
  have cur: "currentStep ?c = 0"
    using run_Previous_at_first[OF assms first, of n w] by simp
  have "steps ?c \<noteq> []"
    using assms len by auto
  from previousStep_at_first[OF this cur] cur len
  show "let c' = fst (run (replicate n Previous) (c, w));
            w' = snd (run (replicate n Previous) (c, w))
        in currentStep c' = 0
           \<and> length (steps c') = length (steps c)
           \<and> previousStep c' w' = put_step c' (reverse_execute (steps c' ! 0) w')"
    unfolding Let_def by blast
qed

theorem boundary_repeat_witness:
  "currentStep (fst (run [Next, Next, Next] (StepCtrl\<lparr>currentStep := 1\<rparr>, demo_world))) = 1
   \<and> trace (snd (state_of (nextStep
        (fst (run [Next, Next, Next] (StepCtrl\<lparr>currentStep := 1\<rparr>, demo_world)))
        (snd (run [Next, Next, Next] (StepCtrl\<lparr>currentStep := 1\<rparr>, demo_world))))))
       = [NextPage, NextPage, NextPage, NextPage]
   \<and> currentStep (fst (run [Previous, Previous, Previous] (StepCtrl, demo_world))) = 0
   \<and> trace (snd (state_of (previousStep
        (fst (run [Previous, Previous, Previous] (StepCtrl, demo_world)))
        (snd (run [Previous, Previous, Previous] (StepCtrl, demo_world))))))
       = [PreviousPage, PreviousPage, PreviousPage, PreviousPage]"
  using boundary_repeat [of "StepCtrl\<lparr>currentStep := 1\<rparr>" "Suc (Suc (Suc 0))" demo_world]
    boundary_repeat [of StepCtrl "Suc (Suc (Suc 0))" demo_world]
  by (simp add: StepCtrl_def demo_world_def nextStep_def previousStep_def js_index_def
        pre_execute_def execute_def reverse_execute_def emit_def Let_def)

subsection \<open>The order of the phases\<close>

text \<open>
  C3. With the cursor in range, \<^verbatim>\<open>previousStep\<close> reverse-executes the step at the
  index before the decrement and only then decrements the cursor, clamped at 0;
  \<^verbatim>\<open>nextStep\<close> first calls \<^verbatim>\<open>finish()\<close> on the animation of the current step
  when that step is an animation step, then advances the cursor, clamped at the last
  index, then executes the step at the new index. The order shows when a phase throws:
  a reverse execution that throws leaves the cursor where it was, and once the
  pre-execution has returned the cursor has advanced whatever the execution does.
\<close>

theorem step_order:
  assumes "0 \<le> currentStep c" and "currentStep c < int (length (steps c))"
  shows "previousStep c w =
           (case put_step c (reverse_execute (steps c ! nat (currentStep c)) w) of
              Thrown e cw \<Rightarrow> Thrown e cw
            | Done (c1, w1) \<Rightarrow> Done (c1\<lparr>currentStep := max 0 (currentStep c - 1)\<rparr>, w1))
       \<and> nextStep c w =
           (case pre_execute (steps c ! nat (currentStep c)) w of
              Thrown e w1 \<Rightarrow> Thrown e (c, w1)
            | Done w1 \<Rightarrow>
                put_step (c\<lparr>currentStep := min (currentStep c + 1) (int (length (steps c)) - 1)\<rparr>)
                  (execute (steps c ! nat (min (currentStep c + 1) (int (length (steps c)) - 1))) w1))
       \<and> (\<forall>a. stype (steps c ! nat (currentStep c)) = ''anim''
              \<and> animation (steps c ! nat (currentStep c)) = Some a \<longrightarrow>
              pre_execute (steps c ! nat (currentStep c)) w = Done (finish a w))
       \<and> (stype (steps c ! nat (currentStep c)) \<noteq> ''anim'' \<longrightarrow>
              pre_execute (steps c ! nat (currentStep c)) w = Done w)
       \<and> (\<not> completed (previousStep c w) \<longrightarrow>
              currentStep (fst (state_of (previousStep c w))) = currentStep c)
       \<and> (completed (pre_execute (steps c ! nat (currentStep c)) w) \<longrightarrow>
              currentStep (fst (state_of (nextStep c w)))
                = min (currentStep c + 1) (int (length (steps c)) - 1))"
proof -
  let ?r = "put_step c (reverse_execute (steps c ! nat (currentStep c)) w)"
  have prev_thrown: "\<not> completed (previousStep c w) \<longrightarrow>
      currentStep (fst (state_of (previousStep c w))) = currentStep c"
  proof (cases ?r)
    case (Thrown e cw)
    have "currentStep (fst (state_of ?r)) = currentStep c" by simp
    then show ?thesis
      using Thrown by (simp add: previousStep_phases[OF assms])
  next
    case (Done cw)
    then show ?thesis
      by (cases cw) (simp add: previousStep_phases[OF assms])
  qed
  have next_cur: "completed (pre_execute (steps c ! nat (currentStep c)) w) \<longrightarrow>
      currentStep (fst (state_of (nextStep c w)))
        = min (currentStep c + 1) (int (length (steps c)) - 1)"
    by (cases "pre_execute (steps c ! nat (currentStep c)) w")
       (simp_all add: nextStep_phases[OF assms])
  show ?thesis
    using prev_thrown next_cur previousStep_phases[OF assms, of w] nextStep_phases[OF assms, of w]
    by (simp add: pre_execute_def)
qed

theorem step_order_witness:
  "\<not> completed (nextStep demo_deck demo_world)
   \<and> currentStep (fst (state_of (nextStep demo_deck demo_world))) = 1
   \<and> trace (snd (state_of (nextStep demo_deck demo_world))) = [BeforePlay ''#a'']
   \<and> currentStep (fst (state_of (previousStep (demo_deck\<lparr>currentStep := 1\<rparr>) demo_world))) = 0
   \<and> trace (snd (state_of (previousStep (demo_deck\<lparr>currentStep := 1\<rparr>) demo_world)))
       = [JQ_finish ''#a'', JQ_css ''#a'' ''visibility'' (CssStr ''visible'')]
   \<and> \<not> completed (previousStep demo_broken demo_world)
   \<and> currentStep (fst (state_of (previousStep demo_broken demo_world))) = 1"
  using step_order [of demo_deck demo_world]
    step_order [of "demo_deck\<lparr>currentStep := 1\<rparr>" demo_world]
    step_order [of demo_broken demo_world]
  by (simp add: demo_deck_def demo_broken_def demo_fields_def demo_world_def pre_execute_def
        execute_def reverse_execute_def emit_def after_play_def startsWith_def Let_def)

subsection \<open>A step of an unknown kind\<close>

text \<open>
  C4, as the code has it. When the step that \<^verbatim>\<open>nextStep\<close> or \<^verbatim>\<open>previousStep\<close>
  executes has a kind other than \<^verbatim>\<open>prevPage\<close>, \<^verbatim>\<open>nextPage\<close> and \<^verbatim>\<open>anim\<close>,
  the execution of that step only reports the error (two console entries): no page
  navigation, no call on an animation, the step list as it was. The cursor moves as for
  any other step: \<^verbatim>\<open>nextStep\<close> has advanced it (clamped at the last index) before
  it meets the step, \<^verbatim>\<open>previousStep\<close> decrements it (clamped at 0) afterwards.
\<close>

theorem unsupported_step_kind:
  assumes "0 \<le> currentStep c" and "currentStep c < int (length (steps c))"
  shows "(stype (steps c ! nat (currentStep c)) \<notin> set step_kinds \<longrightarrow>
            previousStep c w =
              Done (c\<lparr>currentStep := max 0 (currentStep c - 1)\<rparr>,
                    emit Console_log_object
                      (emit (Console_error ''Unsupported step operation: '') w)))
       \<and> (stype (steps c ! nat (min (currentStep c + 1) (int (length (steps c)) - 1)))
              \<notin> set step_kinds \<longrightarrow>
            (\<forall>w1. pre_execute (steps c ! nat (currentStep c)) w = Done w1 \<longrightarrow>
               nextStep c w =
                 Done (c\<lparr>currentStep := min (currentStep c + 1) (int (length (steps c)) - 1)\<rparr>,
                       emit Console_log_object
                         (emit (Console_error ''Unsupported step operation: '') w1))))"
proof (intro conjI impI allI)
  assume "stype (steps c ! nat (currentStep c)) \<notin> set step_kinds"
  then show "previousStep c w =
              Done (c\<lparr>currentStep := max 0 (currentStep c - 1)\<rparr>,
                    emit Console_log_object
                      (emit (Console_error ''Unsupported step operation: '') w))"
    by (simp add: previousStep_phases[OF assms] execute_unsupported)
next
  fix w1
  let ?j = "min (currentStep c + 1) (int (length (steps c)) - 1)"
  assume kind: "stype (steps c ! nat ?j) \<notin> set step_kinds"
    and pre: "pre_execute (steps c ! nat (currentStep c)) w = Done w1"
  have "(steps c)[nat ?j := steps c ! nat ?j] = steps c"
    by simp
  then show "nextStep c w =
          Done (c\<lparr>currentStep := ?j\<rparr>,
                emit Console_log_object
                  (emit (Console_error ''Unsupported step operation: '') w1))"
    using pre execute_unsupported(1)[OF kind]
    by (simp add: nextStep_phases[OF assms])
qed

theorem unsupported_step_kind_witness:
  "nextStep demo_ctrl demo_world =
     Done (demo_ctrl\<lparr>currentStep := 1\<rparr>,
           demo_world\<lparr>trace := [Console_error ''Unsupported step operation: '', Console_log_object]\<rparr>)
   \<and> previousStep (demo_ctrl\<lparr>currentStep := 1\<rparr>) demo_world =
     Done (demo_ctrl,
           demo_world\<lparr>trace := [Console_error ''Unsupported step operation: '', Console_log_object]\<rparr>)"
  using unsupported_step_kind [of demo_ctrl demo_world]
    unsupported_step_kind [of "demo_ctrl\<lparr>currentStep := 1\<rparr>" demo_world]
  by (simp add: demo_ctrl_def demo_world_def step_kinds_def pre_execute_def emit_def)

text \<open>
  The claim as stated (the cursor is the same after the call) fails: from index 0,
  \<^verbatim>\<open>nextStep\<close> lands on the unknown step at index 1, and \<^verbatim>\<open>previousStep\<close>
  on that step moves the cursor back to 0.
\<close>

theorem unsupported_step_kind_counterexample:
  "stype (steps demo_ctrl ! 1) \<notin> set step_kinds
   \<and> currentStep demo_ctrl = 0
   \<and> currentStep (fst (state_of (nextStep demo_ctrl demo_world))) = 1
   \<and> currentStep (demo_ctrl\<lparr>currentStep := 1\<rparr>) = 1
   \<and> currentStep (fst (state_of (previousStep (demo_ctrl\<lparr>currentStep := 1\<rparr>) demo_world))) = 0"
  by (simp add: demo_ctrl_def demo_world_def step_kinds_def nextStep_def previousStep_def
        js_index_def pre_execute_def execute_def reverse_execute_def emit_def Let_def)

subsection \<open>The guards of prepare\<close>

text \<open>
  C5. For every animation with \<^verbatim>\<open>no_reverse\<close> set that is both ready and played,
  \<^verbatim>\<open>prepare()\<close> is a no-op: it returns the animation with its flags as they were
  and the world as it was (no call is added to the trace, so neither \<^verbatim>\<open>finish()\<close>
  nor a precondition of the kind was applied), and a second \<^verbatim>\<open>prepare()\<close> right
  after it does the same.
\<close>

theorem prepare_no_reverse_noop:
  assumes "no_reverse (attrs a)" and "ready (attrs a)" and "played (attrs a)"
  shows "prepare a w = (a, w) \<and> prepare (fst (prepare a w)) (snd (prepare a w)) = (a, w)"
proof -
  have "prepare a w = (a, w)"
    using assms by (cases a) simp
  then show ?thesis by simp
qed

theorem prepare_no_reverse_noop_witness:
  "prepare (Animation (demo_fields\<lparr>no_reverse := True, ready := True, played := True\<rparr>) [])
       demo_world
     = (Animation (demo_fields\<lparr>no_reverse := True, ready := True, played := True\<rparr>) [],
        demo_world)
   \<and> trace (snd (prepare
        (Animation (demo_fields\<lparr>no_reverse := True, ready := True, played := True\<rparr>) [])
        demo_world)) = []"
  using prepare_no_reverse_noop
    [of "Animation (demo_fields\<lparr>no_reverse := True, ready := True, played := True\<rparr>) []"
        demo_world]
  by (simp add: demo_fields_def demo_world_def)

text \<open>
  C6, as the code has it. For every animation with \<^verbatim>\<open>late_prepare\<close> set:
  \<^verbatim>\<open>prepare()\<close> while \<^verbatim>\<open>ready\<close> is false returns the animation and the
  world as they were; \<^verbatim>\<open>play()\<close> runs the whole body of \<^verbatim>\<open>prepare\<close> on the
  armed animation right after \<^verbatim>\<open>beforePlay\<close> (the trace of that pass is the
  beginning of the trace of \<^verbatim>\<open>play\<close>) and leaves \<^verbatim>\<open>ready\<close> set; a later
  \<^verbatim>\<open>prepare()\<close> then runs its body in full, unless \<^verbatim>\<open>no_reverse\<close> is set
  and \<^verbatim>\<open>play()\<close> returned, in which case it is the no-op of the second guard.
\<close>

theorem late_prepare_lifecycle:
  assumes "late_prepare (attrs a)"
  shows "(\<not> ready (attrs a) \<longrightarrow> prepare a w = (a, w))
       \<and> prefix
           (trace (snd (prepare_body
              (Animation ((attrs a)\<lparr>ready := True, played := False\<rparr>) (animations a))
              (emit (BeforePlay (target (attrs a))) w))))
           (trace (snd (state_of (play a w))))
       \<and> ready (attrs (fst (state_of (play a w))))
       \<and> (\<forall>w'. prepare (fst (state_of (play a w))) w' =
                 (if no_reverse (attrs a) \<and> completed (play a w)
                  then (fst (state_of (play a w)), w')
                  else prepare_body (fst (state_of (play a w))) w'))"
proof -
  have "prefix
           (trace (snd (prepare_body
              (Animation ((attrs a)\<lparr>ready := True, played := False\<rparr>) (animations a))
              (emit (BeforePlay (target (attrs a))) w))))
           (trace (snd (state_of (play a w))))"
    using play_prefix_armed(1)[of a w] assms by (simp add: prepare_guards)
  then show ?thesis
    using assms by (simp add: prepare_guards play_flags)
qed

theorem late_prepare_lifecycle_witness:
  "prepare (Animation (demo_fields\<lparr>late_prepare := True\<rparr>) []) demo_world
     = (Animation (demo_fields\<lparr>late_prepare := True\<rparr>) [], demo_world)
   \<and> ready (attrs (fst (state_of (play (Animation (demo_fields\<lparr>late_prepare := True\<rparr>) []) demo_world))))
   \<and> prepare (fst (state_of (play (Animation (demo_fields\<lparr>late_prepare := True\<rparr>) []) demo_world)))
        demo_world
      = prepare_body (fst (state_of (play (Animation (demo_fields\<lparr>late_prepare := True\<rparr>) []) demo_world)))
        demo_world"
  using late_prepare_lifecycle [of "Animation (demo_fields\<lparr>late_prepare := True\<rparr>) []" demo_world]
  by (simp add: demo_fields_def del: prepare.simps prepare_body.simps play.simps)

text \<open>
  The claim as stated (for every \<^verbatim>\<open>late_prepare\<close> animation the later
  \<^verbatim>\<open>prepare()\<close> executes fully) fails when \<^verbatim>\<open>no_reverse\<close> is set as well:
  after \<^verbatim>\<open>play()\<close> the animation is ready and played, \<^verbatim>\<open>prepare()\<close> changes
  nothing, and the text that its body would have put back stays replaced.
\<close>

theorem late_prepare_lifecycle_counterexample:
  "late_prepare (demo_fields\<lparr>late_prepare := True, no_reverse := True\<rparr>)
   \<and> prepare (fst (state_of (play (Animation (demo_fields\<lparr>late_prepare := True, no_reverse := True\<rparr>) []) demo_world)))
        (snd (state_of (play (Animation (demo_fields\<lparr>late_prepare := True, no_reverse := True\<rparr>) []) demo_world)))
      = state_of (play (Animation (demo_fields\<lparr>late_prepare := True, no_reverse := True\<rparr>) []) demo_world)
   \<and> html (snd (prepare_body (fst (state_of (play (Animation (demo_fields\<lparr>late_prepare := True, no_reverse := True\<rparr>) []) demo_world)))
        (snd (state_of (play (Animation (demo_fields\<lparr>late_prepare := True, no_reverse := True\<rparr>) []) demo_world))))) ''#b''
      \<noteq> html (snd (state_of (play (Animation (demo_fields\<lparr>late_prepare := True, no_reverse := True\<rparr>) []) demo_world))) ''#b''"
  by (simp add: demo_fields_def demo_world_def emit_def set_html_def removeClass_def
        prettyPrint_def escape_amp_def after_play_def
        startsWith_def Let_def)

subsection \<open>Change-text animations\<close>

text \<open>
  C7, as the code has it. For every change-text animation without \<^verbatim>\<open>no_reverse\<close>,
  the sequence \<^verbatim>\<open>prepare(); play(); prepare()\<close> ends by writing the saved text
  back to the target, and \<^verbatim>\<open>play()\<close> returns. For an animation with nothing saved
  yet the saved text is the content the target had before the sequence: the first
  \<^verbatim>\<open>prepare()\<close> captures it (unless \<^verbatim>\<open>late_prepare\<close> defers the capture to
  \<^verbatim>\<open>play()\<close>), and the target ends reading that content as the page re-serialises
  it, which is the original content whenever writing the target's own content back to it
  leaves it as it reads. The result is stated through the re-serialisation in every
  case, also for a text saved earlier.
\<close>

theorem changeText_round_trip:
  assumes "atype (attrs a) = ''changeText''"
    and "\<not> no_reverse (attrs a)"
  shows "html (snd (round_trip a w)) (target (attrs a)) =
           (case old_text (attrs a) of
              Some t \<Rightarrow>
                reserialise w (target (attrs a)) (reserialise w (target (attrs a)) t)
            | None \<Rightarrow>
                if late_prepare (attrs a) \<and> ready (attrs a)
                then reserialise w (target (attrs a))
                       (reserialise w (target (attrs a)) (html w (target (attrs a))))
                else reserialise w (target (attrs a)) (html w (target (attrs a))))
       \<and> completed (play (fst (prepare a w)) (snd (prepare a w)))
       \<and> (old_text (attrs a) = None \<and> \<not> (late_prepare (attrs a) \<and> \<not> ready (attrs a)) \<longrightarrow>
            old_text (attrs (fst (prepare a w))) = Some (html w (target (attrs a))))
       \<and> (old_text (attrs a) = None
            \<and> reserialise w (target (attrs a)) (html w (target (attrs a)))
                = html w (target (attrs a)) \<longrightarrow>
            html (snd (round_trip a w)) (target (attrs a)) = html w (target (attrs a)))"
proof (cases a)
  case (Animation f kids)
  show ?thesis
  proof (cases "late_prepare f")
    case False
    then show ?thesis
      using assms Animation
      by (cases "old_text f")
         (simp_all add: round_trip_def Let_def emit_def set_html_def removeClass_def
            prettyPrint_def after_play_def startsWith_def)
  next
    case True
    then show ?thesis
      using assms Animation
      by (cases "old_text f"; cases "ready f")
         (simp_all add: round_trip_def Let_def emit_def set_html_def removeClass_def
            prettyPrint_def after_play_def startsWith_def)
  qed
qed

theorem changeText_round_trip_witness:
  "html (snd (round_trip (Animation demo_fields []) demo_world)) ''#b'' = ''old''
   \<and> old_text (attrs (fst (prepare (Animation demo_fields []) demo_world))) = Some ''old''
   \<and> html (snd (round_trip (Animation (demo_fields\<lparr>old_text := Some ''a&b''\<rparr>) []) demo_world))
        ''#b'' = ''a&amp;b''"
  using changeText_round_trip [of "Animation demo_fields []" demo_world]
    changeText_round_trip [of "Animation (demo_fields\<lparr>old_text := Some ''a&b''\<rparr>) []" demo_world]
  by (simp add: demo_fields_def demo_world_def escape_amp_def)

text \<open>
  The claim as stated (every change-text animation) fails with \<^verbatim>\<open>no_reverse\<close>:
  the second \<^verbatim>\<open>prepare()\<close> finds the animation ready and played and returns,
  so the target keeps the new text.
\<close>

theorem changeText_round_trip_counterexample:
  "atype (demo_fields\<lparr>no_reverse := True\<rparr>) = ''changeText''
   \<and> old_text (demo_fields\<lparr>no_reverse := True\<rparr>) = None
   \<and> html demo_world ''#b'' = ''old''
   \<and> html (snd (round_trip (Animation (demo_fields\<lparr>no_reverse := True\<rparr>) []) demo_world)) ''#b'' = ''hi''"
  by (simp add: round_trip_def demo_fields_def demo_world_def emit_def set_html_def
        removeClass_def prettyPrint_def escape_amp_def after_play_def startsWith_def Let_def)

text \<open>
  C8, as the code has it. \<^verbatim>\<open>play()\<close> on a change-text animation returns. It
  stores in \<^verbatim>\<open>__old_text\<close> the content the target reads when the replacement is
  made, whether or not something was saved before: without \<^verbatim>\<open>late_prepare\<close> that
  is the content before the call, which overwrites an earlier capture; with
  \<^verbatim>\<open>late_prepare\<close> the prepare pass has just written an earlier capture back, and
  what is stored is that capture as the page re-serialises it. It then writes
  \<^verbatim>\<open>text\<close> to the target and has the code blocks highlighted again: these calls
  and \<^verbatim>\<open>afterPlay\<close> end the trace, and the page reads as these three calls leave
  it.
\<close>

theorem play_changeText_capture:
  assumes "atype (attrs a) = ''changeText''"
  shows "completed (play a w)
       \<and> old_text (attrs (fst (state_of (play a w)))) =
           Some (case old_text (attrs a) of
                   None \<Rightarrow> html w (target (attrs a))
                 | Some t \<Rightarrow>
                     if late_prepare (attrs a) then reserialise w (target (attrs a)) t
                     else html w (target (attrs a)))
       \<and> html (snd (state_of (play a w))) =
           highlighted w
             (class_removed w ''.prettyprinted'' ''prettyprinted''
               ((html w)(target (attrs a) :=
                           reserialise w (target (attrs a)) (atext (attrs a)))))
       \<and> (\<exists>before. trace (snd (state_of (play a w))) =
             before @ [JQ_html (target (attrs a)) (atext (attrs a)),
                       JQ_removeClass ''.prettyprinted'' ''prettyprinted'',
                       PrettyPrint, AfterPlay (target (attrs a))])"
proof (cases a)
  case (Animation f kids)
  show ?thesis
  proof (cases "late_prepare f")
    case False
    then show ?thesis
      using assms Animation play_changeText[of f kids w]
      by (cases "old_text f")
         (simp_all add: emit_def set_html_def removeClass_def prettyPrint_def)
  next
    case True
    then show ?thesis
      using assms Animation play_changeText_late[of f kids w]
        prepare_changeText[of "f\<lparr>ready := True, played := False\<rparr>" kids]
      by (cases "old_text f")
         (simp_all add: emit_def set_html_def removeClass_def prettyPrint_def
            del: prepare.simps prepare_body.simps)
  qed
qed

theorem play_changeText_capture_witness:
  "completed (play (Animation (demo_fields\<lparr>atext := ''a&b''\<rparr>) []) demo_world)
   \<and> old_text (attrs (fst (state_of
        (play (Animation (demo_fields\<lparr>atext := ''a&b''\<rparr>) []) demo_world)))) = Some ''old''
   \<and> html (snd (state_of
        (play (Animation (demo_fields\<lparr>atext := ''a&b''\<rparr>) []) demo_world))) ''#b'' = ''a&amp;b''
   \<and> old_text (attrs (fst (state_of
        (play (Animation (demo_fields\<lparr>late_prepare := True, old_text := Some ''a&b''\<rparr>) [])
           demo_world)))) = Some ''a&amp;b''"
  using play_changeText_capture [of "Animation (demo_fields\<lparr>atext := ''a&b''\<rparr>) []" demo_world]
    play_changeText_capture
      [of "Animation (demo_fields\<lparr>late_prepare := True, old_text := Some ''a&b''\<rparr>) []" demo_world]
  by (simp add: demo_fields_def demo_world_def escape_amp_def)

text \<open>
  The claim as stated (an existing capture is not overwritten) fails: an animation that
  holds \<^verbatim>\<open>orig\<close> and is played while the target shows \<^verbatim>\<open>old\<close> holds
  \<^verbatim>\<open>old\<close> afterwards.
\<close>

theorem play_changeText_capture_counterexample:
  "atype (demo_fields\<lparr>old_text := Some ''orig''\<rparr>) = ''changeText''
   \<and> old_text (demo_fields\<lparr>old_text := Some ''orig''\<rparr>) = Some ''orig''
   \<and> old_text (attrs (fst (state_of
        (play (Animation (demo_fields\<lparr>old_text := Some ''orig''\<rparr>) []) demo_world)))) = Some ''old''"
  by (simp add: demo_fields_def demo_world_def emit_def set_html_def removeClass_def
        prettyPrint_def after_play_def Let_def)

subsection \<open>play on an unsupported kind\<close>



subsection \<open>The constructor\<close>

text \<open>
  C10, as the code has it. For every Animation constructed with any arguments, right
  after construction \<^verbatim>\<open>ready\<close> and \<^verbatim>\<open>played\<close> are false, also when the
  options hold keys of these names, and \<^verbatim>\<open>playCustomAnimation\<close>,
  \<^verbatim>\<open>prepareCustomAnimation\<close>, \<^verbatim>\<open>finishCustomAnimation\<close> and
  \<^verbatim>\<open>moveOutside\<close> are the functions the constructor creates; every pair of the
  options under any other key is on the instance (so it can shadow \<^verbatim>\<open>type\<close>,
  \<^verbatim>\<open>target\<close>, \<^verbatim>\<open>duration\<close> or \<^verbatim>\<open>easing\<close>).
\<close>

theorem Animation_new_properties:
  assumes "distinct (map fst options)"
  shows "Animation_new ty tg d e options ''ready'' = Some (JBool False)
       \<and> Animation_new ty tg d e options ''played'' = Some (JBool False)
       \<and> Animation_new ty tg d e options ''playCustomAnimation'' = Some (JFun ''playCustomAnimation'')
       \<and> Animation_new ty tg d e options ''prepareCustomAnimation'' = Some (JFun ''prepareCustomAnimation'')
       \<and> Animation_new ty tg d e options ''finishCustomAnimation'' = Some (JFun ''finishCustomAnimation'')
       \<and> Animation_new ty tg d e options ''moveOutside'' = Some (JFun ''moveOutside'')
       \<and> (\<forall>key v. (key, v) \<in> set options \<and> key \<notin> set overwritten_keys \<longrightarrow>
              Animation_new ty tg d e options key = Some v)"
proof -
  have "Animation_new ty tg d e options key = Some v"
    if "(key, v) \<in> set options" and "key \<notin> set overwritten_keys" for key v
    using that assign_options_copied[OF assms that(1)]
    by (simp add: Animation_new_def Let_def overwritten_keys_def)
  then show ?thesis
    by (simp add: Animation_new_def Let_def)
qed

theorem Animation_new_properties_witness:
  "Animation_new (JStr ''fadeIn'') (JStr ''#a'') JUndefined JUndefined
      [(''ready'', JBool True), (''type'', JStr ''fadeOut''), (''text'', JStr ''hi'')] ''ready''
     = Some (JBool False)
   \<and> Animation_new (JStr ''fadeIn'') (JStr ''#a'') JUndefined JUndefined
      [(''ready'', JBool True), (''type'', JStr ''fadeOut''), (''text'', JStr ''hi'')] ''type''
     = Some (JStr ''fadeOut'')
   \<and> Animation_new (JStr ''fadeIn'') (JStr ''#a'') JUndefined JUndefined
      [(''ready'', JBool True), (''type'', JStr ''fadeOut''), (''text'', JStr ''hi'')] ''text''
     = Some (JStr ''hi'')"
proof -
  note th = Animation_new_properties
    [of "[(''ready'', JBool True), (''type'', JStr ''fadeOut''), (''text'', JStr ''hi'')]"
        "JStr ''fadeIn''" "JStr ''#a''" JUndefined JUndefined]
  have d: "distinct (map fst [(''ready'', JBool True), (''type'', JStr ''fadeOut''), (''text'', JStr ''hi'')])"
    by simp
  have copied: "\<forall>key v. (key, v) \<in> set [(''ready'', JBool True), (''type'', JStr ''fadeOut''), (''text'', JStr ''hi'')]
        \<and> key \<notin> set overwritten_keys \<longrightarrow>
        Animation_new (JStr ''fadeIn'') (JStr ''#a'') JUndefined JUndefined
          [(''ready'', JBool True), (''type'', JStr ''fadeOut''), (''text'', JStr ''hi'')] key = Some v"
    and r: "Animation_new (JStr ''fadeIn'') (JStr ''#a'') JUndefined JUndefined
      [(''ready'', JBool True), (''type'', JStr ''fadeOut''), (''text'', JStr ''hi'')] ''ready''
     = Some (JBool False)"
    using th[OF d] by blast+
  have t1: "Animation_new (JStr ''fadeIn'') (JStr ''#a'') JUndefined JUndefined
      [(''ready'', JBool True), (''type'', JStr ''fadeOut''), (''text'', JStr ''hi'')] ''type''
     = Some (JStr ''fadeOut'')"
    using copied[rule_format, of "''type''" "JStr ''fadeOut''"] by (simp add: overwritten_keys_def)
  have t2: "Animation_new (JStr ''fadeIn'') (JStr ''#a'') JUndefined JUndefined
      [(''ready'', JBool True), (''type'', JStr ''fadeOut''), (''text'', JStr ''hi'')] ''text''
     = Some (JStr ''hi'')"
    using copied[rule_format, of "''text''" "JStr ''hi''"] by (simp add: overwritten_keys_def)
  show ?thesis using r t1 t2 by blast
qed

text \<open>
  The claim as stated (every options pair other than \<^verbatim>\<open>ready\<close> and
  \<^verbatim>\<open>played\<close> is copied) fails for a hook passed in the options: the constructor
  assigns its own empty function after the copy.
\<close>

theorem Animation_new_properties_counterexample:
  "(''playCustomAnimation'', JFun ''mine'') \<in> set [(''playCustomAnimation'', JFun ''mine'')]
   \<and> ''playCustomAnimation'' \<notin> {''ready'', ''played''}
   \<and> Animation_new (JStr ''custom'') (JStr ''#a'') JUndefined JUndefined
        [(''playCustomAnimation'', JFun ''mine'')] ''playCustomAnimation''
       = Some (JFun ''playCustomAnimation'')
   \<and> JFun ''playCustomAnimation'' \<noteq> JFun ''mine''"
  by (simp add: Animation_new_def Let_def)

end
